theory Spec2Isabelle
  imports Complex_Main
begin

section \<open>Copyboard: the board engine of \<open>copyboard_extension/core.py\<close>\<close>

subsection \<open>Strings\<close>

text \<open>
  A Python \<open>str\<close> is a sequence of Unicode code points and \<open>len\<close> counts code points.
  The preview code contains characters beyond Latin-1, so a string is modelled as the list
  of its code points. \<open>lit\<close> turns an ASCII literal into such a list.
\<close>

type_synonym pystr = "nat list"

definition lit :: "string \<Rightarrow> pystr" where
  "lit cs = map of_char cs"

subsection \<open>Module state and its environment\<close>

text \<open>
  The module-level globals of \<open>core.py\<close> (\<open>_board\<close>, \<open>MAX_BOARD_SIZE\<close>,
  \<open>_board_modified\<close>, \<open>_last_saved_time\<close>, \<open>_changes_since_save\<close>) together with the
  parts of the outside world the functions act on: what \<open>BOARD_FILE\<close> is known to
  hold, the system clipboard behind \<open>pyperclip\<close>, and the sequence of effects issued so
  far. \<open>board_file = Some b\<close> says that the file holds the board \<open>b\<close>; \<open>None\<close> says
  nothing about the file: it may be missing, or a failed write may have left it
  untouched, empty or cut short. \<open>FileWrite ok\<close> records that the
  \<open>try\<close> block of \<open>_save_board\<close> was entered, with \<open>ok\<close> telling whether the write
  went through; \<open>PasteKey\<close> records a call of \<open>paste_helper.paste_current_clipboard\<close>.
\<close>

datatype effect = FileWrite bool | PasteKey

record core_state =
  board :: "pystr list"
  MAX_BOARD_SIZE :: int
  board_modified :: bool
  last_saved_time :: real
  changes_since_save :: int
  board_file :: "pystr list option"
  clipboard :: pystr
  trace :: "effect list"

definition AUTO_SAVE_DELAY :: real where
  "AUTO_SAVE_DELAY = 2"

definition SAVE_BATCH_SIZE :: int where
  "SAVE_BATCH_SIZE = 3"

subsection \<open>Subtraction of doubles\<close>

text \<open>
  \<open>time.time()\<close> and \<open>_last_saved_time\<close> are Python floats, IEEE 754 doubles, and
  \<open>current_time - _last_saved_time\<close> is the IEEE subtraction: the exact difference
  rounded to the nearest double, ties to the even significand. A double is taken as
  the real number it denotes. \<open>binade x\<close> is the exponent \<open>e\<close> with
  \<open>2^e \<le> |x| < 2^(e+1)\<close>; a double in that binade is a multiple of \<open>2^(e-52)\<close>, and
  of \<open>2^(-1074)\<close> below the normal range. Where IEEE overflows to an infinity the
  model keeps the finite rounded value, which compares with \<open>AUTO_SAVE_DELAY\<close> in the
  same way.
\<close>

fun bit_length :: "nat \<Rightarrow> nat" where
  "bit_length n = (if n = 0 then 0 else Suc (bit_length (n div 2)))"

declare bit_length.simps [simp del]

definition pow2 :: "int \<Rightarrow> real" where
  "pow2 e = (if 0 \<le> e then 2 ^ nat e else 1 / 2 ^ nat (- e))"

definition binade :: "real \<Rightarrow> int" where
  "binade x =
     (if 1 \<le> \<bar>x\<bar> then int (bit_length (nat \<lfloor>\<bar>x\<bar>\<rfloor>)) - 1
      else - int (bit_length (nat (\<lceil>1 / \<bar>x\<bar>\<rceil> - 1))))"

definition round_half_even :: "real \<Rightarrow> int" where
  "round_half_even y =
     (let f = \<lfloor>y\<rfloor>; d = y - of_int f in
      if d < 1 / 2 then f
      else if d > 1 / 2 then f + 1
      else if even f then f else f + 1)"

definition round_double :: "real \<Rightarrow> real" where
  "round_double x =
     (if x = 0 then 0
      else
        let ulp = pow2 (max (- 1022) (binade x) - 52)
        in ulp * of_int (round_half_even (x / ulp)))"

definition double_sub :: "real \<Rightarrow> real \<Rightarrow> real" where
  "double_sub a b = round_double (a - b)"

subsection \<open>Persistence\<close>

text \<open>
  \<open>_save_board(force)\<close>. The value of \<open>time.time()\<close> is the argument
  \<open>current_time\<close>. Whether \<open>open\<close>/\<open>json.dump\<close> raise is the argument \<open>ok\<close>: when
  they do, the \<open>except\<close> clause prints the error and the globals keep their values.
  \<open>open(BOARD_FILE, 'w')\<close> empties the file before \<open>json.dump\<close> writes, so after a
  failed write nothing is known about the file.
\<close>

definition save_board :: "bool \<Rightarrow> real \<Rightarrow> bool \<Rightarrow> core_state \<Rightarrow> core_state" where
  "save_board force current_time ok s =
     (if \<not> board_modified s \<and> \<not> force then s
      else if force \<or> changes_since_save s \<ge> SAVE_BATCH_SIZE \<or>
              (double_sub current_time (last_saved_time s) > AUTO_SAVE_DELAY \<and>
               board_modified s)
      then (if ok
            then s\<lparr>board_file := Some (board s),
                   board_modified := False,
                   last_saved_time := current_time,
                   changes_since_save := 0,
                   trace := trace s @ [FileWrite True]\<rparr>
            else s\<lparr>board_file := None, trace := trace s @ [FileWrite False]\<rparr>)
      else s)"

definition mark_modified :: "core_state \<Rightarrow> core_state" where
  "mark_modified s = s\<lparr>board_modified := True, changes_since_save := changes_since_save s + 1\<rparr>"

subsection \<open>Board operations\<close>

text \<open>
  \<open>copy_to_board(content)\<close>: \<open>None\<close> reads the clipboard. \<open>_board.insert(0, content)\<close>
  is a cons, \<open>_board.pop()\<close> on the then non-empty list drops the last entry.
\<close>

definition copy_to_board ::
  "pystr option \<Rightarrow> real \<Rightarrow> bool \<Rightarrow> core_state \<Rightarrow> pystr \<times> core_state" where
  "copy_to_board content_arg now ok s =
     (let content = (case content_arg of None \<Rightarrow> clipboard s | Some c \<Rightarrow> c) in
      if board s \<noteq> [] \<and> board s ! 0 = content then (content, s)
      else
        let s1 = s\<lparr>board := content # board s\<rparr>;
            s2 = (if int (length (board s1)) > MAX_BOARD_SIZE s1
                  then s1\<lparr>board := butlast (board s1)\<rparr> else s1);
            s3 = mark_modified s2;
            s4 = save_board False now ok s3
        in (content, s4))"

text \<open>The states reached after each call of a sequence of \<open>copy_to_board\<close> calls.\<close>

fun copy_run :: "(pystr option \<times> real \<times> bool) list \<Rightarrow> core_state \<Rightarrow> core_state list" where
  "copy_run [] s = []"
| "copy_run ((c, now, ok) # cs) s =
     (let s' = snd (copy_to_board c now ok s) in s' # copy_run cs s')"

text \<open>
  \<open>sep.join(items)\<close> on a list of strings; \<open>''.join\<close> is \<open>join []\<close>.
\<close>

fun join :: "pystr \<Rightarrow> pystr list \<Rightarrow> pystr" where
  "join sep [] = []"
| "join sep [x] = x"
| "join sep (x # y # ys) = x @ sep @ join sep (y # ys)"

definition newline_char :: nat where
  "newline_char = 10"

text \<open>
  \<open>pyperclip.copy\<close> and \<open>paste_helper.paste_current_clipboard\<close> are external
  collaborators: the first sets the clipboard, the second starts a thread that sends the
  paste keystroke and returns at once. Both are taken not to raise.
\<close>

definition paste_current_clipboard :: "core_state \<Rightarrow> core_state" where
  "paste_current_clipboard s = s\<lparr>trace := trace s @ [PasteKey]\<rparr>"

definition paste_from_board :: "int \<Rightarrow> bool \<Rightarrow> core_state \<Rightarrow> bool \<times> core_state" where
  "paste_from_board index auto_paste s =
     (if board s = [] \<or> index < 0 \<or> index \<ge> int (length (board s)) then (False, s)
      else
        let s1 = s\<lparr>clipboard := board s ! nat index\<rparr>;
            s2 = (if auto_paste then paste_current_clipboard s1 else s1)
        in (True, s2))"

definition paste_all :: "bool \<Rightarrow> core_state \<Rightarrow> bool \<times> core_state" where
  "paste_all auto_paste s =
     (if board s = [] then (False, s)
      else
        let all_content = join [newline_char] (board s);
            s1 = s\<lparr>clipboard := all_content\<rparr>;
            s2 = (if auto_paste then paste_current_clipboard s1 else s1)
        in (True, s2))"

text \<open>The validation loop of \<open>paste_combination\<close>: it returns at the first invalid index.\<close>

fun indices_valid :: "int list \<Rightarrow> nat \<Rightarrow> bool" where
  "indices_valid [] n = True"
| "indices_valid (idx # rest) n =
     (if idx < 0 \<or> idx \<ge> int n then False else indices_valid rest n)"

definition paste_combination :: "int list \<Rightarrow> bool \<Rightarrow> core_state \<Rightarrow> bool \<times> core_state" where
  "paste_combination indices auto_paste s =
     (if board s = [] then (False, s)
      else if \<not> indices_valid indices (length (board s)) then (False, s)
      else
        let selected_items = map (\<lambda>idx. board s ! nat idx) indices;
            combined = join [] selected_items;
            s1 = s\<lparr>clipboard := combined\<rparr>;
            s2 = (if auto_paste then paste_current_clipboard s1 else s1)
        in (True, s2))"

text \<open>\<open>list.pop(i)\<close> for an index \<open>i\<close> that is in range.\<close>

fun pop_at :: "nat \<Rightarrow> 'a list \<Rightarrow> 'a list" where
  "pop_at i [] = []"
| "pop_at 0 (x # xs) = xs"
| "pop_at (Suc i) (x # xs) = x # pop_at i xs"

definition drop_item :: "int option \<Rightarrow> real \<Rightarrow> bool \<Rightarrow> core_state \<Rightarrow> bool \<times> core_state" where
  "drop_item index now ok s =
     (if board s = [] then (False, s)
      else
        (case index of
           None \<Rightarrow>
             (True, save_board False now ok (mark_modified (s\<lparr>board := butlast (board s)\<rparr>)))
         | Some i \<Rightarrow>
             if 0 \<le> i \<and> i < int (length (board s))
             then (True, save_board False now ok
                           (mark_modified (s\<lparr>board := pop_at (nat i) (board s)\<rparr>)))
             else (False, s)))"

definition clear_board :: "real \<Rightarrow> bool \<Rightarrow> core_state \<Rightarrow> pystr list \<times> core_state" where
  "clear_board now ok s =
     (let s1 = s\<lparr>board := []\<rparr>;
          s2 = mark_modified s1;
          s3 = save_board True now ok s2
      in (board s3, s3))"

definition get_board :: "core_state \<Rightarrow> pystr list" where
  "get_board s = board s"

definition get_board_item :: "int \<Rightarrow> core_state \<Rightarrow> pystr option" where
  "get_board_item index s =
     (if 0 \<le> index \<and> index < int (length (board s)) then Some (board s ! nat index) else None)"

definition get_board_size :: "core_state \<Rightarrow> int" where
  "get_board_size s = int (length (board s))"

subsection \<open>Preview\<close>

text \<open>
  \<open>item[:n]\<close>: a negative \<open>n\<close> counts from the end and the slice is empty when that
  falls before the start.
\<close>

definition py_prefix :: "int \<Rightarrow> 'a list \<Rightarrow> 'a list" where
  "py_prefix n xs = (if 0 \<le> n then take (nat n) xs else take (length xs - nat (- n)) xs)"

text \<open>\<open>s.replace(old, new)\<close> for a one-character \<open>old\<close>.\<close>

definition replace_char :: "nat \<Rightarrow> pystr \<Rightarrow> pystr \<Rightarrow> pystr" where
  "replace_char old new str = concat (map (\<lambda>c. if c = old then new else [c]) str)"

text \<open>\<open>f"{index}"\<close> for the non-negative index that \<open>enumerate\<close> yields.\<close>

fun decimal :: "nat \<Rightarrow> pystr" where
  "decimal n = (if n < 10 then [48 + n] else decimal (n div 10) @ [48 + n mod 10])"

declare decimal.simps [simp del]

text \<open>
  The replacement text for a newline as the source file has it: the code points
  U+00E2, U+2020, U+00B5 and a space.
\<close>

definition newline_placeholder :: pystr where
  "newline_placeholder = [226, 8224, 181, 32]"

definition ellipsis :: pystr where
  "ellipsis = lit ''...''"

text \<open>The body of the loop of \<open>get_board_preview\<close>, for one \<open>(index, item)\<close> pair.\<close>

definition preview_entry :: "int \<Rightarrow> nat \<Rightarrow> pystr \<Rightarrow> pystr" where
  "preview_entry preview_max index item =
     (let preview = (if int (length item) > preview_max
                     then py_prefix preview_max item @ ellipsis else item);
          preview' = replace_char newline_char newline_placeholder preview
      in decimal index @ lit '': '' @ preview')"

text \<open>
  The returned dictionary as the list of its items in insertion order; the keys that
  \<open>enumerate\<close> yields are distinct, so no assignment overwrites an earlier one.
\<close>

definition get_board_preview :: "int \<Rightarrow> core_state \<Rightarrow> (nat \<times> pystr) list" where
  "get_board_preview preview_max s =
     map (\<lambda>(index, item). (index, preview_entry preview_max index item))
         (enumerate 0 (board s))"

subsection \<open>Maximum size\<close>

text \<open>
  The \<open>while\<close> loop of \<open>set_max_board_size\<close>, from the flag \<open>changed\<close> and the state to
  their values at loop exit. \<open>_board.pop()\<close> on an empty list raises \<open>IndexError\<close>,
  which is the result \<open>None\<close>.
\<close>

function trim_loop :: "bool \<Rightarrow> core_state \<Rightarrow> (bool \<times> core_state) option" where
  "trim_loop changed s =
     (if int (length (board s)) > MAX_BOARD_SIZE s
      then (if board s = [] then None
            else trim_loop True (s\<lparr>board := butlast (board s)\<rparr>))
      else Some (changed, s))"
  by pat_completeness auto
termination
  by (relation "measure (\<lambda>(changed, s). length (board s))") auto

declare trim_loop.simps [simp del]

definition set_max_board_size :: "int \<Rightarrow> real \<Rightarrow> bool \<Rightarrow> core_state \<Rightarrow> core_state option" where
  "set_max_board_size size_arg now ok s =
     (let s1 = s\<lparr>MAX_BOARD_SIZE := max 1 size_arg\<rparr> in
      case trim_loop False s1 of
        None \<Rightarrow> None
      | Some (changed, s2) \<Rightarrow>
          if changed then Some (save_board True now ok (mark_modified s2)) else Some s2)"

definition force_save :: "real \<Rightarrow> bool \<Rightarrow> core_state \<Rightarrow> core_state" where
  "force_save now ok s = save_board True now ok s"

section \<open>The native messaging host: \<open>handle_message\<close>\<close>

text \<open>
  A request is the decoded JSON object with the fields the handler reads, typed as the
  protocol has them; a missing field is \<open>None\<close> and \<open>message.get\<close> supplies the default.
  A response is the returned dictionary. Logging is left out. With fields of these
  types and a clipboard that does not raise, nothing inside the \<open>try\<close> blocks of the
  handler raises, so their \<open>except\<close> clauses have no branch here.
\<close>

record message =
  msg_action :: "pystr option"
  msg_content :: "pystr option"
  msg_index :: "int option"

record response =
  resp_success :: bool
  resp_items :: "pystr list option"
  resp_content :: "pystr option"
  resp_error :: "pystr option"

definition success_response :: "bool \<Rightarrow> response" where
  "success_response b =
     \<lparr>resp_success = b, resp_items = None, resp_content = None, resp_error = None\<rparr>"

definition error_response :: "pystr \<Rightarrow> response" where
  "error_response e =
     \<lparr>resp_success = False, resp_items = None, resp_content = None, resp_error = Some e\<rparr>"

definition handle_message ::
  "message \<Rightarrow> real \<Rightarrow> bool \<Rightarrow> core_state \<Rightarrow> response \<times> core_state" where
  "handle_message message now ok s =
     (let action = (case msg_action message of None \<Rightarrow> [] | Some a \<Rightarrow> a) in
      if action = lit ''add'' then
        (let content = (case msg_content message of None \<Rightarrow> [] | Some c \<Rightarrow> c) in
         if content \<noteq> [] then
           (let s1 = s\<lparr>clipboard := content\<rparr>;
                s2 = snd (copy_to_board None now ok s1)
            in (success_response True, s2))
         else (error_response (lit ''No content provided''), s))
      else if action = lit ''list'' then
        ((success_response True)\<lparr>resp_items := Some (get_board s)\<rparr>, s)
      else if action = lit ''paste'' then
        (let index = (case msg_index message of None \<Rightarrow> - 1 | Some i \<Rightarrow> i) in
         if index \<ge> 0 then
           (case get_board_item index s of
              Some content \<Rightarrow>
                if content \<noteq> []
                then ((success_response True)\<lparr>resp_content := Some content\<rparr>, s)
                else (error_response (lit ''Invalid index or item not found''), s)
            | None \<Rightarrow> (error_response (lit ''Invalid index or item not found''), s))
         else (error_response (lit ''Invalid index or item not found''), s))
      else if action = lit ''paste_direct'' then
        (let index = (case msg_index message of None \<Rightarrow> 0 | Some i \<Rightarrow> i);
             (result, s1) = paste_from_board index True s
         in (success_response result, s1))
      else if action = lit ''clear'' then
        (let s1 = snd (clear_board now ok s) in (success_response True, s1))
      else (error_response (lit ''Unknown action: '' @ action), s))"

section \<open>A sample state\<close>

text \<open>
  The board \<open>["c", "b", "a"]\<close> (index 0 is \<open>"c"\<close>) with a maximum of three entries,
  nothing pending, nothing known about the board file and \<open>"clip"\<close> on the clipboard.
\<close>

definition demo_state :: core_state where
  "demo_state =
     \<lparr>board = [lit ''c'', lit ''b'', lit ''a''], MAX_BOARD_SIZE = 3, board_modified = False,
      last_saved_time = 0, changes_since_save = 0, board_file = None,
      clipboard = lit ''clip'', trace = []\<rparr>"

text \<open>
  The doubles \<open>3.0000000000000004\<close> and \<open>1.0000000000000002\<close>, whose exact difference
  lies half way between \<open>2.0\<close> and the next double.
\<close>

definition tie_now :: real where
  "tie_now = 3 + 1 / 2 ^ 51"

definition tie_last :: real where
  "tie_last = 1 + 1 / 2 ^ 52"

text \<open>Five entries under the default maximum of ten, with an older board file.\<close>

definition five_state :: core_state where
  "five_state =
     \<lparr>board = [lit ''e'', lit ''d'', lit ''c'', lit ''b'', lit ''a''], MAX_BOARD_SIZE = 10,
      board_modified = False, last_saved_time = 0, changes_since_save = 0,
      board_file = Some [lit ''a''], clipboard = [], trace = []\<rparr>"

text \<open>The sample state after one \<open>copy_to_board("x")\<close> at time 1.\<close>

definition one_insert_state :: core_state where
  "one_insert_state = snd (copy_to_board (Some (lit ''x'')) 1 True demo_state)"

text \<open>A board with a long entry and an entry with an embedded newline.\<close>

definition preview_state :: core_state where
  "preview_state = demo_state\<lparr>board := [lit ''abcdef'', lit ''a'' @ [10] @ lit ''b'']\<rparr>"

text \<open>The two-entry board \<open>["y", "x"]\<close> and the request \<open>{"action": "paste", "index": i}\<close>.\<close>

definition two_state :: core_state where
  "two_state = demo_state\<lparr>board := [lit ''y'', lit ''x'']\<rparr>"

definition paste_request :: "int \<Rightarrow> message" where
  "paste_request i = \<lparr>msg_action = Some (lit ''paste''), msg_content = None, msg_index = Some i\<rparr>"

text \<open>The sample state after \<open>copy_to_board("")\<close>: the empty string is at the head.\<close>

definition empty_entry_state :: core_state where
  "empty_entry_state = snd (copy_to_board (Some []) 1 True demo_state)"

section \<open>Properties\<close>

subsection \<open>Rounding\<close>

lemma round_half_even_le_ceiling: "round_half_even y \<le> \<lceil>y\<rceil>"
proof -
  have "\<lfloor>y\<rfloor> \<le> \<lceil>y\<rceil>" by (rule floor_le_ceiling)
  moreover have "\<lfloor>y\<rfloor> + 1 \<le> \<lceil>y\<rceil>" if "y - of_int \<lfloor>y\<rfloor> \<ge> 1 / 2"
  proof -
    from that have "of_int \<lfloor>y\<rfloor> < y" by simp
    then have "\<lfloor>y\<rfloor> < \<lceil>y\<rceil>" by (simp add: less_ceiling_iff)
    then show ?thesis by simp
  qed
  ultimately show ?thesis
    by (auto simp: round_half_even_def Let_def)
qed

lemma pow2_pos: "0 < pow2 e"
  by (simp add: pow2_def)

lemma binade_small: "\<bar>x\<bar> < 2 \<Longrightarrow> binade x \<le> 0"
proof (cases "1 \<le> \<bar>x\<bar>")
  case True
  assume "\<bar>x\<bar> < 2"
  with True have "\<lfloor>\<bar>x\<bar>\<rfloor> = 1" by (simp add: floor_eq_iff)
  with True show ?thesis by (simp add: binade_def bit_length.simps)
next
  case False
  then show ?thesis by (simp add: binade_def)
qed

text \<open>Rounding does not lift a difference below two above two.\<close>

lemma round_double_below:
  assumes "x < 2"
  shows "round_double x \<le> 2"
proof (cases "x \<le> 0")
  case True
  show ?thesis
  proof (cases "x = 0")
    case True
    then show ?thesis by (simp add: round_double_def)
  next
    case False
    define ulp where "ulp = pow2 (max (- 1022) (binade x) - 52)"
    have pos: "0 < ulp" by (simp add: ulp_def pow2_pos)
    from True pos have "x / ulp \<le> 0" by (simp add: divide_nonpos_pos)
    then have "\<lceil>x / ulp\<rceil> \<le> 0" by (simp add: ceiling_le_iff)
    with round_half_even_le_ceiling [of "x / ulp"] have "round_half_even (x / ulp) \<le> 0"
      by linarith
    then have "ulp * of_int (round_half_even (x / ulp)) \<le> 0"
      using pos by (simp add: mult_le_0_iff)
    with False show ?thesis
      by (simp add: round_double_def Let_def ulp_def)
  qed
next
  case False
  then have x0: "0 < x" by simp
  with assms have "\<bar>x\<bar> < 2" by simp
  then have b: "binade x \<le> 0" by (rule binade_small)
  define n where "n = nat (52 - max (- 1022) (binade x))"
  define ulp where "ulp = pow2 (max (- 1022) (binade x) - 52)"
  have ulp: "ulp = 1 / 2 ^ n"
    using b by (simp add: ulp_def pow2_def n_def)
  have pos: "0 < ulp" by (simp add: ulp)
  have "x / ulp < 2 / ulp" using assms pos by (simp add: divide_strict_right_mono)
  also have "2 / ulp = of_int (2 ^ Suc n)" by (simp add: ulp)
  finally have "\<lceil>x / ulp\<rceil> \<le> 2 ^ Suc n" by (simp add: ceiling_le_iff less_imp_le)
  with round_half_even_le_ceiling [of "x / ulp"] have "round_half_even (x / ulp) \<le> 2 ^ Suc n"
    by linarith
  then have "(of_int (round_half_even (x / ulp)) :: real) \<le> of_int (2 ^ Suc n)"
    by (simp only: of_int_le_iff)
  then have "ulp * of_int (round_half_even (x / ulp)) \<le> ulp * of_int (2 ^ Suc n)"
    using pos by (simp add: mult_le_cancel_left_pos)
  also have "ulp * of_int (2 ^ Suc n) = 2" by (simp add: ulp)
  finally show ?thesis
    using x0 by (simp add: round_double_def Let_def ulp_def)
qed

lemma double_sub_below: "a - b < AUTO_SAVE_DELAY \<Longrightarrow> \<not> double_sub a b > AUTO_SAVE_DELAY"
  using round_double_below [of "a - b"] by (simp add: double_sub_def AUTO_SAVE_DELAY_def)

lemma double_sub_one_zero: "double_sub 1 0 = 1"
  by code_simp

text \<open>
  The exact difference of \<open>tie_now\<close> and \<open>tie_last\<close> is above two but is rounded to
  \<open>2.0\<close>, which is not above the delay, so a save without \<open>force\<close> and below the
  batch size leaves such a state alone.
\<close>

lemma double_sub_tie: "tie_now - tie_last > 2 \<and> double_sub tie_now tie_last = 2"
  by code_simp

lemma save_board_at_tie:
  "save_board False tie_now ok
     (s\<lparr>board_modified := True, changes_since_save := 1, last_saved_time := tie_last\<rparr>) =
   s\<lparr>board_modified := True, changes_since_save := 1, last_saved_time := tie_last\<rparr>"
  by (simp add: save_board_def double_sub_tie SAVE_BATCH_SIZE_def AUTO_SAVE_DELAY_def)

subsection \<open>What saving and marking leave alone\<close>

lemma save_board_board [simp]: "board (save_board f t ok s) = board s"
  by (simp add: save_board_def)

lemma save_board_max [simp]: "MAX_BOARD_SIZE (save_board f t ok s) = MAX_BOARD_SIZE s"
  by (simp add: save_board_def)

lemma mark_modified_board [simp]: "board (mark_modified s) = board s"
  by (simp add: mark_modified_def)

lemma mark_modified_max [simp]: "MAX_BOARD_SIZE (mark_modified s) = MAX_BOARD_SIZE s"
  by (simp add: mark_modified_def)

lemma save_board_clipboard [simp]: "clipboard (save_board f t ok s) = clipboard s"
  by (simp add: save_board_def)

lemma mark_modified_clipboard [simp]: "clipboard (mark_modified s) = clipboard s"
  by (simp add: mark_modified_def)

lemma copy_to_board_max [simp]:
  "MAX_BOARD_SIZE (snd (copy_to_board c now ok s)) = MAX_BOARD_SIZE s"
  by (simp add: copy_to_board_def Let_def)

lemma copy_to_board_bounded:
  assumes "int (length (board s)) \<le> MAX_BOARD_SIZE s"
  shows "int (length (board (snd (copy_to_board c now ok s)))) \<le> MAX_BOARD_SIZE s"
  using assms by (auto simp: copy_to_board_def Let_def)

lemma copy_to_board_grows_by_one:
  "length (board (snd (copy_to_board c now ok s))) \<le> length (board s) + 1"
  by (simp add: copy_to_board_def Let_def)

lemma copy_run_bounded:
  assumes "int (length (board s)) \<le> MAX_BOARD_SIZE s"
  shows "\<forall>t \<in> set (copy_run cs s).
           int (length (board t)) \<le> MAX_BOARD_SIZE t \<and> MAX_BOARD_SIZE t = MAX_BOARD_SIZE s"
  using assms
proof (induction cs arbitrary: s)
  case Nil
  then show ?case by simp
next
  case (Cons call cs)
  obtain c now ok where call: "call = (c, now, ok)" by (cases call) auto
  let ?s' = "snd (copy_to_board c now ok s)"
  have step: "int (length (board ?s')) \<le> MAX_BOARD_SIZE ?s'"
    using copy_to_board_bounded [OF Cons.prems] by simp
  from Cons.IH [OF step] show ?case
    using step by (auto simp: call Let_def)
qed

lemmas eval_defs = demo_state_def copy_to_board_def Let_def lit_def mark_modified_def
  save_board_def SAVE_BATCH_SIZE_def AUTO_SAVE_DELAY_def double_sub_one_zero

lemmas board_defs = demo_state_def copy_to_board_def Let_def lit_def

lemma copy_to_board_result:
  "board (snd (copy_to_board c now ok s)) =
     (let content = (case c of None \<Rightarrow> clipboard s | Some x \<Rightarrow> x) in
      if board s \<noteq> [] \<and> hd (board s) = content then board s
      else if int (length (board s)) + 1 > MAX_BOARD_SIZE s then butlast (content # board s)
      else content # board s)"
  by (auto simp: copy_to_board_def Let_def hd_conv_nth)

subsection \<open>The size bound\<close>

text \<open>
  C1. Starting from a board no longer than \<open>MAX_BOARD_SIZE\<close>, after each call of any
  sequence of \<open>copy_to_board\<close> calls (whatever the contents, the clock and the outcome
  of the disk writes) the board is no longer than \<open>MAX_BOARD_SIZE\<close>, which the calls
  leave as it is. One call makes the board at most one entry longer: it leaves the
  board alone when the head equals the content, and otherwise puts the content in front
  and drops the last entry when the length then exceeds the maximum.
\<close>

theorem copy_to_board_keeps_size_bound:
  assumes "int (length (board s)) \<le> MAX_BOARD_SIZE s"
  shows "(\<forall>t \<in> set (copy_run calls s).
            int (length (board t)) \<le> MAX_BOARD_SIZE t \<and> MAX_BOARD_SIZE t = MAX_BOARD_SIZE s)
         \<and> length (board (snd (copy_to_board c now ok s))) \<le> length (board s) + 1
         \<and> board (snd (copy_to_board c now ok s)) =
             (let content = (case c of None \<Rightarrow> clipboard s | Some x \<Rightarrow> x) in
              if board s \<noteq> [] \<and> hd (board s) = content then board s
              else if int (length (board s)) + 1 > MAX_BOARD_SIZE s
                   then butlast (content # board s)
              else content # board s)"
  using copy_run_bounded [OF assms] copy_to_board_grows_by_one copy_to_board_result
  by blast

theorem copy_to_board_keeps_size_bound_witness:
  "int (length (board demo_state)) \<le> MAX_BOARD_SIZE demo_state \<and>
   map board (copy_run [(Some (lit ''x''), 1, True), (None, 2, False), (None, 3, True),
                        (Some (lit ''y''), 9, True)] demo_state) =
     [[lit ''x'', lit ''c'', lit ''b''], [lit ''clip'', lit ''x'', lit ''c''],
      [lit ''clip'', lit ''x'', lit ''c''], [lit ''y'', lit ''clip'', lit ''x'']] \<and>
   list_all (\<lambda>t. int (length (board t)) \<le> MAX_BOARD_SIZE t \<and>
                  MAX_BOARD_SIZE t = MAX_BOARD_SIZE demo_state)
     (copy_run [(Some (lit ''x''), 1, True), (None, 2, False), (None, 3, True),
                (Some (lit ''y''), 9, True)] demo_state)"
proof -
  have h: "int (length (board demo_state)) \<le> MAX_BOARD_SIZE demo_state"
    by (simp add: demo_state_def)
  have run: "map board (copy_run [(Some (lit ''x''), 1, True), (None, 2, False), (None, 3, True),
                        (Some (lit ''y''), 9, True)] demo_state) =
     [[lit ''x'', lit ''c'', lit ''b''], [lit ''clip'', lit ''x'', lit ''c''],
      [lit ''clip'', lit ''x'', lit ''c''], [lit ''y'', lit ''clip'', lit ''x'']]"
    by (simp add: board_defs)
  from copy_to_board_keeps_size_bound [OF h] h run show ?thesis
    unfolding list_all_iff by blast
qed

subsection \<open>Deduplication against the head\<close>

lemma copy_to_board_head:
  assumes "1 \<le> MAX_BOARD_SIZE s"
  shows "board (snd (copy_to_board (Some c) now ok s)) \<noteq> [] \<and>
         board (snd (copy_to_board (Some c) now ok s)) ! 0 = c"
  using assms by (cases "board s") (auto simp: copy_to_board_def Let_def)

text \<open>
  C2. When the board is not empty and its head equals the content (given, or read from
  the clipboard), \<open>copy_to_board\<close> returns the content and the whole state, so the
  board, the dirty flag and the change counter, is what it was. With a maximum of at
  least one, a call leaves its content at the head, so a second call with the same
  content changes nothing.
\<close>

theorem copy_to_board_head_duplicate_noop:
  "(board s \<noteq> [] \<and> hd (board s) = c \<longrightarrow> copy_to_board (Some c) now ok s = (c, s)) \<and>
   (board s \<noteq> [] \<and> hd (board s) = clipboard s \<longrightarrow>
      copy_to_board None now ok s = (clipboard s, s)) \<and>
   (1 \<le> MAX_BOARD_SIZE s \<longrightarrow>
      copy_to_board (Some c) now' ok' (snd (copy_to_board (Some c) now ok s)) =
        (c, snd (copy_to_board (Some c) now ok s)))"
proof (intro conjI impI)
  assume "board s \<noteq> [] \<and> hd (board s) = c"
  then show "copy_to_board (Some c) now ok s = (c, s)"
    by (auto simp: copy_to_board_def hd_conv_nth)
next
  assume "board s \<noteq> [] \<and> hd (board s) = clipboard s"
  then show "copy_to_board None now ok s = (clipboard s, s)"
    by (auto simp: copy_to_board_def hd_conv_nth)
next
  assume "1 \<le> MAX_BOARD_SIZE s"
  from copy_to_board_head [OF this, of c now ok]
  show "copy_to_board (Some c) now' ok' (snd (copy_to_board (Some c) now ok s)) =
        (c, snd (copy_to_board (Some c) now ok s))"
    by (simp add: copy_to_board_def [of "Some c" now' ok'])
qed

theorem copy_to_board_head_duplicate_noop_witness:
  "board demo_state \<noteq> [] \<and> hd (board demo_state) = lit ''c'' \<and>
   copy_to_board (Some (lit ''c'')) 5 True demo_state = (lit ''c'', demo_state) \<and>
   1 \<le> MAX_BOARD_SIZE demo_state \<and>
   board (snd (copy_to_board (Some (lit ''x'')) 5 True demo_state)) =
     [lit ''x'', lit ''c'', lit ''b''] \<and>
   copy_to_board (Some (lit ''x'')) 6 True (snd (copy_to_board (Some (lit ''x'')) 5 True demo_state)) =
     (lit ''x'', snd (copy_to_board (Some (lit ''x'')) 5 True demo_state))"
proof -
  have h1: "board demo_state \<noteq> [] \<and> hd (board demo_state) = lit ''c''"
    by (simp add: demo_state_def)
  have h2: "1 \<le> MAX_BOARD_SIZE demo_state"
    by (simp add: demo_state_def)
  have b: "board (snd (copy_to_board (Some (lit ''x'')) 5 True demo_state)) =
     [lit ''x'', lit ''c'', lit ''b'']"
    by (simp add: board_defs)
  from copy_to_board_head_duplicate_noop [of demo_state "lit ''c''" 5 True 6 True]
       copy_to_board_head_duplicate_noop [of demo_state "lit ''x''" 5 True 6 True] h1 h2 b
  show ?thesis by blast
qed

subsection \<open>Combination paste and paste-all\<close>

lemma indices_valid_iff:
  "indices_valid indices n \<longleftrightarrow> (\<forall>idx \<in> set indices. 0 \<le> idx \<and> idx < int n)"
  by (induction indices) auto

lemma join_cons: "join sep (x # xs) = x @ concat (map (\<lambda>y. sep @ y) xs)"
  by (induction xs arbitrary: x) auto

lemma join_empty_sep: "join [] xs = concat xs"
  by (cases xs) (simp_all add: join_cons)

text \<open>
  C3. \<open>paste_combination\<close> succeeds exactly when the board is not empty and every index
  is in range, so it succeeds only when every index is in range; when it fails the
  state (clipboard included) is untouched. On success the clipboard holds the entries
  at the given indices, in the order of the index list, concatenated with nothing
  between them. \<open>paste_all\<close> succeeds exactly on a non-empty board and puts on the
  clipboard the first entry followed by each later entry with a newline before it, in
  board order. Neither changes the board.
\<close>

theorem paste_combination_vs_paste_all:
  "(fst (paste_combination indices auto_paste s) \<longleftrightarrow>
      board s \<noteq> [] \<and> (\<forall>idx \<in> set indices. 0 \<le> idx \<and> idx < int (length (board s)))) \<and>
   (\<not> fst (paste_combination indices auto_paste s) \<longrightarrow>
      snd (paste_combination indices auto_paste s) = s) \<and>
   (fst (paste_combination indices auto_paste s) \<longrightarrow>
      clipboard (snd (paste_combination indices auto_paste s)) =
        concat (map (\<lambda>idx. board s ! nat idx) indices) \<and>
      board (snd (paste_combination indices auto_paste s)) = board s) \<and>
   (fst (paste_all auto_paste s) \<longleftrightarrow> board s \<noteq> []) \<and>
   (\<forall>b bs. board s = b # bs \<longrightarrow>
      clipboard (snd (paste_all auto_paste s)) = b @ concat (map (\<lambda>e. newline_char # e) bs) \<and>
      board (snd (paste_all auto_paste s)) = board s)"
  by (auto simp: paste_combination_def paste_all_def Let_def indices_valid_iff join_empty_sep
        join_cons paste_current_clipboard_def)

theorem paste_combination_vs_paste_all_witness:
  "fst (paste_combination [2, 0, 1] True demo_state) \<and>
   list_all (\<lambda>idx. 0 \<le> idx \<and> idx < int (length (board demo_state))) [2, 0, 1] \<and>
   clipboard (snd (paste_combination [2, 0, 1] True demo_state)) = lit ''acb'' \<and>
   \<not> fst (paste_combination [2, 3] True demo_state) \<and>
   snd (paste_combination [2, 3] True demo_state) = demo_state \<and>
   board demo_state = lit ''c'' # [lit ''b'', lit ''a''] \<and>
   clipboard (snd (paste_all True demo_state)) = lit ''c'' @ [newline_char] @ lit ''b'' @ [newline_char] @ lit ''a''"
proof -
  have b: "board demo_state = lit ''c'' # [lit ''b'', lit ''a'']"
    by (simp add: demo_state_def)
  have v: "\<forall>idx \<in> set [2, 0, 1]. 0 \<le> idx \<and> idx < int (length (board demo_state))"
    by (simp add: demo_state_def)
  have n: "\<not> (\<forall>idx \<in> set [2, 3]. 0 \<le> idx \<and> idx < int (length (board demo_state)))"
    by (simp add: demo_state_def)
  have c: "concat (map (\<lambda>idx. board demo_state ! nat idx) [2, 0, 1]) = lit ''acb''"
    by (simp add: demo_state_def lit_def)
  have d: "lit ''c'' @ concat (map (\<lambda>e. newline_char # e) [lit ''b'', lit ''a'']) =
           lit ''c'' @ [newline_char] @ lit ''b'' @ [newline_char] @ lit ''a''"
    by simp
  from paste_combination_vs_paste_all [of "[2, 0, 1]" True demo_state]
       paste_combination_vs_paste_all [of "[2, 3]" True demo_state] b v n c d
  show ?thesis unfolding list_all_iff by (simp add: b)
qed

subsection \<open>Removing an entry\<close>

lemma pop_at_take_drop: "pop_at i xs = take i xs @ drop (Suc i) xs"
  by (induction i xs rule: pop_at.induct) auto

text \<open>
  C4. \<open>drop_item\<close> with an index returns false exactly when the board is empty or the
  index is outside \<open>[0, len)\<close>, and then the state is unchanged. Otherwise it returns
  true and the board is the entries before the index followed by the entries after it,
  one entry fewer than before.
\<close>

theorem drop_item_at_index:
  "(fst (drop_item (Some i) now ok s) \<longleftrightarrow>
      \<not> (board s = [] \<or> i < 0 \<or> i \<ge> int (length (board s)))) \<and>
   (\<not> fst (drop_item (Some i) now ok s) \<longrightarrow> snd (drop_item (Some i) now ok s) = s) \<and>
   (fst (drop_item (Some i) now ok s) \<longrightarrow>
      board (snd (drop_item (Some i) now ok s)) =
        take (nat i) (board s) @ drop (Suc (nat i)) (board s) \<and>
      length (board (snd (drop_item (Some i) now ok s))) + 1 = length (board s))"
proof (cases "board s = [] \<or> i < 0 \<or> i \<ge> int (length (board s))")
  case True
  then have "drop_item (Some i) now ok s = (False, s)"
    by (auto simp: drop_item_def)
  with True show ?thesis by simp
next
  case False
  then have in_range: "nat i < length (board s)" by auto
  from False have "drop_item (Some i) now ok s =
      (True, save_board False now ok (mark_modified (s\<lparr>board := pop_at (nat i) (board s)\<rparr>)))"
    by (auto simp: drop_item_def)
  with False in_range show ?thesis
    by (simp add: pop_at_take_drop)
qed

theorem drop_item_at_index_witness:
  "fst (drop_item (Some 1) 1 True demo_state) \<and>
   board (snd (drop_item (Some 1) 1 True demo_state)) = [lit ''c'', lit ''a''] \<and>
   \<not> fst (drop_item (Some 3) 1 True demo_state) \<and>
   snd (drop_item (Some 3) 1 True demo_state) = demo_state \<and>
   \<not> fst (drop_item (Some (- 1)) 1 True demo_state) \<and>
   \<not> fst (drop_item (Some 0) 1 True (demo_state\<lparr>board := []\<rparr>))"
  using drop_item_at_index [of 1 1 True demo_state]
        drop_item_at_index [of 3 1 True demo_state]
        drop_item_at_index [of "- 1" 1 True demo_state]
        drop_item_at_index [of 0 1 True "demo_state\<lparr>board := []\<rparr>"]
  by (simp add: demo_state_def)

subsection \<open>Clearing the board\<close>

text \<open>
  With a write that raises, \<open>clear_board\<close> on the sample state empties the board and
  enters the write, but the state it leaves is dirty: the flag is set and the counter
  is one.
\<close>

theorem clear_board_failed_write_counterexample:
  "board (snd (clear_board 1 False demo_state)) = [] \<and>
   trace (snd (clear_board 1 False demo_state)) = [FileWrite False] \<and>
   board_modified (snd (clear_board 1 False demo_state)) \<and>
   changes_since_save (snd (clear_board 1 False demo_state)) = 1"
  by (simp add: clear_board_def eval_defs)

text \<open>
  C5, amended. \<open>clear_board\<close> always returns and leaves the empty board and always
  enters the write of \<open>_save_board\<close>, whatever the flush policy would say. When the
  write goes through, the state is clean (flag false, counter zero, save time now) and
  the file holds the empty board. When the write raises, the board is still empty and
  the state is dirty, with the counter one higher than before.
\<close>

theorem clear_board_forced_flush:
  "fst (clear_board now ok s) = [] \<and>
   board (snd (clear_board now ok s)) = [] \<and>
   trace (snd (clear_board now ok s)) = trace s @ [FileWrite ok] \<and>
   (ok \<longrightarrow> \<not> board_modified (snd (clear_board now ok s)) \<and>
            changes_since_save (snd (clear_board now ok s)) = 0 \<and>
            last_saved_time (snd (clear_board now ok s)) = now \<and>
            board_file (snd (clear_board now ok s)) = Some []) \<and>
   (\<not> ok \<longrightarrow> board_modified (snd (clear_board now ok s)) \<and>
            changes_since_save (snd (clear_board now ok s)) = changes_since_save s + 1)"
  by (simp add: clear_board_def Let_def mark_modified_def save_board_def)

theorem clear_board_forced_flush_witness:
  "board (snd (clear_board 7 True demo_state)) = [] \<and>
   trace (snd (clear_board 7 True demo_state)) = [FileWrite True] \<and>
   \<not> board_modified (snd (clear_board 7 True demo_state)) \<and>
   changes_since_save (snd (clear_board 7 True demo_state)) = 0 \<and>
   last_saved_time (snd (clear_board 7 True demo_state)) = 7 \<and>
   board_file (snd (clear_board 7 True demo_state)) = Some [] \<and>
   board_modified (snd (clear_board 7 False five_state)) \<and>
   changes_since_save (snd (clear_board 7 False five_state)) = 1"
  using clear_board_forced_flush [of 7 True demo_state]
        clear_board_forced_flush [of 7 False five_state]
  by (simp add: demo_state_def five_state_def)

subsection \<open>Changing the maximum size\<close>

lemma trim_loop_take:
  "0 \<le> MAX_BOARD_SIZE s \<Longrightarrow>
   trim_loop changed s =
     Some (changed \<or> int (length (board s)) > MAX_BOARD_SIZE s,
           s\<lparr>board := take (nat (MAX_BOARD_SIZE s)) (board s)\<rparr>)"
proof (induction changed s rule: trim_loop.induct)
  case (1 changed s)
  show ?case
  proof (cases "int (length (board s)) > MAX_BOARD_SIZE s")
    case False
    then show ?thesis by (simp add: trim_loop.simps [of changed s])
  next
    case True
    with "1.prems" have ne: "board s \<noteq> []" by auto
    let ?s' = "s\<lparr>board := butlast (board s)\<rparr>"
    have "trim_loop True ?s' =
          Some (True \<or> int (length (board ?s')) > MAX_BOARD_SIZE ?s',
                ?s'\<lparr>board := take (nat (MAX_BOARD_SIZE ?s')) (board ?s')\<rparr>)"
      using "1.IH" [OF True ne] "1.prems" by simp
    moreover have "take (nat (MAX_BOARD_SIZE s)) (butlast (board s)) =
                   take (nat (MAX_BOARD_SIZE s)) (board s)"
      using True "1.prems" by (intro take_butlast) linarith
    ultimately show ?thesis
      using True ne by (simp add: trim_loop.simps [of changed s])
  qed
qed

lemma set_max_board_size_eq:
  "set_max_board_size size_arg now ok s =
     Some (if int (length (board s)) > max 1 size_arg
           then save_board True now ok
                  (mark_modified (s\<lparr>MAX_BOARD_SIZE := max 1 size_arg,
                                     board := take (nat (max 1 size_arg)) (board s)\<rparr>))
           else s\<lparr>MAX_BOARD_SIZE := max 1 size_arg\<rparr>)"
proof -
  let ?s1 = "s\<lparr>MAX_BOARD_SIZE := max 1 size_arg\<rparr>"
  have "0 \<le> MAX_BOARD_SIZE ?s1" by simp
  from trim_loop_take [OF this, of False]
  show ?thesis
    by (auto simp: set_max_board_size_def Let_def)
qed

text \<open>
  C6. \<open>set_max_board_size\<close> always returns, with the maximum set to \<open>max(1, size)\<close> and
  the board cut to its first \<open>max(1, size)\<close> entries, the most recent ones. When the
  board was longer than the new maximum, its length is then equal to it, the change is
  marked and \<open>_save_board\<close> is called with \<open>force\<close>: the write is entered, and when it
  goes through the file holds the cut board and the state is clean. When the board was
  not longer, only the maximum changes.
\<close>

theorem set_max_board_size_truncates:
  "\<exists>s'. set_max_board_size size_arg now ok s = Some s' \<and>
     MAX_BOARD_SIZE s' = max 1 size_arg \<and>
     board s' = take (nat (max 1 size_arg)) (board s) \<and>
     (int (length (board s)) > max 1 size_arg \<longrightarrow>
        int (length (board s')) = max 1 size_arg \<and>
        s' = save_board True now ok
               (mark_modified (s\<lparr>MAX_BOARD_SIZE := max 1 size_arg,
                                  board := take (nat (max 1 size_arg)) (board s)\<rparr>)) \<and>
        trace s' = trace s @ [FileWrite ok] \<and>
        (ok \<longrightarrow> board_file s' = Some (board s') \<and> \<not> board_modified s' \<and>
                 changes_since_save s' = 0)) \<and>
     (int (length (board s)) \<le> max 1 size_arg \<longrightarrow>
        s' = s\<lparr>MAX_BOARD_SIZE := max 1 size_arg\<rparr>)"
proof -
  define m where "m = max 1 size_arg"
  have m1: "1 \<le> m" by (simp add: m_def)
  have eq: "set_max_board_size size_arg now ok s =
     Some (if int (length (board s)) > m
           then save_board True now ok
                  (mark_modified (s\<lparr>MAX_BOARD_SIZE := m, board := take (nat m) (board s)\<rparr>))
           else s\<lparr>MAX_BOARD_SIZE := m\<rparr>)"
    unfolding m_def by (rule set_max_board_size_eq)
  have "\<exists>s'. set_max_board_size size_arg now ok s = Some s' \<and>
     MAX_BOARD_SIZE s' = m \<and>
     board s' = take (nat m) (board s) \<and>
     (int (length (board s)) > m \<longrightarrow>
        int (length (board s')) = m \<and>
        s' = save_board True now ok
               (mark_modified (s\<lparr>MAX_BOARD_SIZE := m, board := take (nat m) (board s)\<rparr>)) \<and>
        trace s' = trace s @ [FileWrite ok] \<and>
        (ok \<longrightarrow> board_file s' = Some (board s') \<and> \<not> board_modified s' \<and>
                 changes_since_save s' = 0)) \<and>
     (int (length (board s)) \<le> m \<longrightarrow> s' = s\<lparr>MAX_BOARD_SIZE := m\<rparr>)"
  proof (cases "int (length (board s)) > m")
    case True
    with m1 have "int (length (take (nat m) (board s))) = m"
      by simp
    with True show ?thesis
      by (simp add: eq save_board_def mark_modified_def)
  next
    case False
    then show ?thesis
      by (simp add: eq)
  qed
  then show ?thesis unfolding m_def .
qed

theorem set_max_board_size_truncates_witness:
  "int (length (board five_state)) > max 1 2 \<and>
   set_max_board_size 2 4 True five_state =
     Some \<lparr>board = [lit ''e'', lit ''d''], MAX_BOARD_SIZE = 2, board_modified = False,
           last_saved_time = 4, changes_since_save = 0,
           board_file = Some [lit ''e'', lit ''d''], clipboard = [],
           trace = [FileWrite True]\<rparr> \<and>
   set_max_board_size (- 4) 4 True demo_state =
     Some \<lparr>board = [lit ''c''], MAX_BOARD_SIZE = 1, board_modified = False,
           last_saved_time = 4, changes_since_save = 0,
           board_file = Some [lit ''c''], clipboard = lit ''clip'',
           trace = [FileWrite True]\<rparr> \<and>
   int (length (board demo_state)) \<le> max 1 7 \<and>
   set_max_board_size 7 4 True demo_state = Some (demo_state\<lparr>MAX_BOARD_SIZE := 7\<rparr>)"
  using set_max_board_size_truncates [of 2 4 True five_state]
        set_max_board_size_truncates [of "- 4" 4 True demo_state]
        set_max_board_size_truncates [of 7 4 True demo_state]
  by (auto simp: five_state_def demo_state_def save_board_def mark_modified_def)

subsection \<open>The flush policy\<close>

text \<open>
  C7. Without \<open>force\<close>, \<open>_save_board\<close> leaves the state (file and effects included) as it
  is when fewer than \<open>SAVE_BATCH_SIZE\<close> changes are pending and less than
  \<open>AUTO_SAVE_DELAY\<close> seconds have passed since the last save, and also whenever the
  board is not marked modified. With \<open>force\<close> it always enters the write. After a write
  that went through, the state is clean: the flag is false, the counter zero, the save
  time is now and the file holds the board.
\<close>

theorem save_board_policy:
  "(\<not> force \<and> changes_since_save s < SAVE_BATCH_SIZE \<and>
      now - last_saved_time s < AUTO_SAVE_DELAY \<longrightarrow> save_board force now ok s = s) \<and>
   (\<not> force \<and> \<not> board_modified s \<longrightarrow> save_board force now ok s = s) \<and>
   trace (save_board True now ok s) = trace s @ [FileWrite ok] \<and>
   (trace (save_board force now ok s) = trace s @ [FileWrite True] \<longrightarrow>
      \<not> board_modified (save_board force now ok s) \<and>
      changes_since_save (save_board force now ok s) = 0 \<and>
      last_saved_time (save_board force now ok s) = now \<and>
      board_file (save_board force now ok s) = Some (board s))"
proof (intro conjI impI)
  assume h: "\<not> force \<and> changes_since_save s < SAVE_BATCH_SIZE \<and>
      now - last_saved_time s < AUTO_SAVE_DELAY"
  then have "\<not> double_sub now (last_saved_time s) > AUTO_SAVE_DELAY"
    by (intro double_sub_below) simp
  with h show "save_board force now ok s = s"
    by (simp add: save_board_def)
next
  assume "\<not> force \<and> \<not> board_modified s"
  then show "save_board force now ok s = s"
    by (simp add: save_board_def)
next
  show "trace (save_board True now ok s) = trace s @ [FileWrite ok]"
    by (simp add: save_board_def)
next
  assume w: "trace (save_board force now ok s) = trace s @ [FileWrite True]"
  then have written: "save_board force now ok s =
      s\<lparr>board_file := Some (board s), board_modified := False, last_saved_time := now,
        changes_since_save := 0, trace := trace s @ [FileWrite True]\<rparr>"
    by (auto simp: save_board_def split: if_splits)
  show "\<not> board_modified (save_board force now ok s)"
    by (simp add: written)
  show "changes_since_save (save_board force now ok s) = 0"
    by (simp add: written)
  show "last_saved_time (save_board force now ok s) = now"
    by (simp add: written)
  show "board_file (save_board force now ok s) = Some (board s)"
    by (simp add: written)
qed

theorem save_board_policy_witness:
  "changes_since_save one_insert_state = 1 \<and> board_modified one_insert_state \<and>
   changes_since_save one_insert_state < SAVE_BATCH_SIZE \<and>
   1 - last_saved_time one_insert_state < AUTO_SAVE_DELAY \<and>
   save_board False 1 True one_insert_state = one_insert_state \<and>
   \<not> board_modified demo_state \<and> save_board False 100 True demo_state = demo_state \<and>
   trace (save_board True 1 True one_insert_state) = trace one_insert_state @ [FileWrite True] \<and>
   \<not> board_modified (save_board True 1 True one_insert_state) \<and>
   changes_since_save (save_board True 1 True one_insert_state) = 0 \<and>
   last_saved_time (save_board True 1 True one_insert_state) = 1 \<and>
   board_file (save_board True 1 True one_insert_state) = Some [lit ''x'', lit ''c'', lit ''b'']"
proof -
  have st: "one_insert_state = demo_state\<lparr>board := [lit ''x'', lit ''c'', lit ''b''],
              board_modified := True, changes_since_save := 1\<rparr>"
    by (simp add: one_insert_state_def eval_defs)
  have h: "changes_since_save one_insert_state = 1 \<and> board_modified one_insert_state \<and>
     changes_since_save one_insert_state < SAVE_BATCH_SIZE \<and>
     1 - last_saved_time one_insert_state < AUTO_SAVE_DELAY \<and> \<not> board_modified demo_state \<and>
     board one_insert_state = [lit ''x'', lit ''c'', lit ''b'']"
    by (simp add: st demo_state_def SAVE_BATCH_SIZE_def AUTO_SAVE_DELAY_def)
  from save_board_policy [of False one_insert_state 1 True]
       save_board_policy [of False demo_state 100 True]
       save_board_policy [of True one_insert_state 1 True] h
  show ?thesis by metis
qed

subsection \<open>Preview\<close>

lemma get_board_preview_range:
  "get_board_preview m s =
     map (\<lambda>i. (i, preview_entry m i (board s ! i))) [0..<length (board s)]"
  by (rule nth_equalityI) (simp_all add: get_board_preview_def nth_enumerate_eq)

lemma replace_char_append:
  "replace_char old new (xs @ ys) = replace_char old new xs @ replace_char old new ys"
  by (simp add: replace_char_def)

lemma replace_char_absent: "old \<notin> set xs \<Longrightarrow> replace_char old new xs = xs"
  by (induction xs) (auto simp: replace_char_def)

lemma replace_char_removes: "old \<notin> set new \<Longrightarrow> old \<notin> set (replace_char old new xs)"
  by (induction xs) (auto simp: replace_char_def)

text \<open>
  A one-entry board \<open>["ab"]\<close> with a limit of 30: the value at key 0 is \<open>"0: ab"\<close>, the
  entry behind its index, a colon and a space, and not the entry \<open>"ab"\<close> itself. On the
  board \<open>["a\nb"]\<close> the newline becomes the four code points of the replacement text.
\<close>

theorem get_board_preview_counterexample:
  "map_of (get_board_preview 30 (demo_state\<lparr>board := [lit ''ab'']\<rparr>)) 0 = Some (lit ''0: ab'') \<and>
   lit ''0: ab'' \<noteq> lit ''ab'' \<and>
   map_of (get_board_preview 30 (demo_state\<lparr>board := [lit ''a'' @ [10] @ lit ''b'']\<rparr>)) 0 =
     Some (lit ''0: a'' @ [226, 8224, 181, 32] @ lit ''b'')"
  by (simp add: get_board_preview_def preview_entry_def demo_state_def lit_def decimal.simps
        replace_char_def newline_char_def newline_placeholder_def enumerate_eq_zip)

text \<open>
  C8, amended. The keys of \<open>get_board_preview\<close> are exactly the indices of the board, in
  order. The value at index \<open>i\<close> is the decimal index, a colon and a space, followed by
  the entry when it is no longer than the limit, and otherwise by the slice
  \<open>item[:limit]\<close> with three dots appended; in that text every newline is replaced by
  the replacement text, the rest is kept, and no newline remains. For a limit that is
  not negative the slice is the first \<open>limit\<close> characters of the entry.
\<close>

theorem get_board_preview_entries:
  "map fst (get_board_preview m s) = [0..<length (board s)] \<and>
   (\<forall>i < length (board s).
      map_of (get_board_preview m s) i =
        Some (decimal i @ lit '': '' @
              replace_char newline_char newline_placeholder
                (if int (length (board s ! i)) > m
                 then py_prefix m (board s ! i) @ lit ''...'' else board s ! i))) \<and>
   (0 \<le> m \<longrightarrow> py_prefix m item = take (nat m) item) \<and>
   replace_char newline_char newline_placeholder (xs @ newline_char # ys) =
     replace_char newline_char newline_placeholder xs @ newline_placeholder @
     replace_char newline_char newline_placeholder ys \<and>
   (newline_char \<notin> set xs \<longrightarrow> replace_char newline_char newline_placeholder xs = xs) \<and>
   newline_char \<notin> set (replace_char newline_char newline_placeholder xs)"
proof (intro conjI allI impI)
  show "map fst (get_board_preview m s) = [0..<length (board s)]"
    by (simp add: get_board_preview_range comp_def)
next
  fix i assume "i < length (board s)"
  then show "map_of (get_board_preview m s) i =
        Some (decimal i @ lit '': '' @
              replace_char newline_char newline_placeholder
                (if int (length (board s ! i)) > m
                 then py_prefix m (board s ! i) @ lit ''...'' else board s ! i))"
    by (simp add: get_board_preview_range map_of_map_restrict preview_entry_def ellipsis_def)
next
  assume "0 \<le> m" then show "py_prefix m item = take (nat m) item"
    by (simp add: py_prefix_def)
next
  show "replace_char newline_char newline_placeholder (xs @ newline_char # ys) =
     replace_char newline_char newline_placeholder xs @ newline_placeholder @
     replace_char newline_char newline_placeholder ys"
    by (simp add: replace_char_def)
next
  assume "newline_char \<notin> set xs"
  then show "replace_char newline_char newline_placeholder xs = xs"
    by (rule replace_char_absent)
next
  show "newline_char \<notin> set (replace_char newline_char newline_placeholder xs)"
    by (rule replace_char_removes) (simp add: newline_char_def newline_placeholder_def)
qed

theorem get_board_preview_entries_witness:
  "(0::nat) < length (board preview_state) \<and> 1 < length (board preview_state) \<and>
   map fst (get_board_preview 4 preview_state) = [0, 1] \<and>
   map_of (get_board_preview 4 preview_state) 0 = Some (lit ''0: abcd...'') \<and>
   map_of (get_board_preview 4 preview_state) 1 =
     Some (lit ''1: a'' @ newline_placeholder @ lit ''b'') \<and>
   (0::int) \<le> 4 \<and> py_prefix 4 (lit ''abcdef'') = lit ''abcd'' \<and>
   newline_char \<notin> set (lit ''ab'') \<and>
   replace_char newline_char newline_placeholder (lit ''ab'') = lit ''ab''"
  using get_board_preview_entries [of 4 preview_state "lit ''abcdef''" "lit ''ab''" "lit ''b''"]
  by (simp add: preview_state_def demo_state_def lit_def decimal.simps newline_char_def
        newline_placeholder_def replace_char_def py_prefix_def get_board_preview_def
        preview_entry_def ellipsis_def enumerate_eq_zip)

subsection \<open>The paste action of the messaging host\<close>

text \<open>
  C9. For a request with action \<open>"paste"\<close> and an index below zero or not below the
  length of the board, \<open>handle_message\<close> answers with \<open>success\<close> false and an \<open>error\<close>
  field, and the state, so the board, is unchanged.
\<close>

theorem handle_message_paste_out_of_range:
  assumes "msg_action m = Some (lit ''paste'')" and "msg_index m = Some i"
    and "i < 0 \<or> i \<ge> int (length (board s))"
  shows "handle_message m now ok s =
           (error_response (lit ''Invalid index or item not found''), s) \<and>
         \<not> resp_success (fst (handle_message m now ok s)) \<and>
         resp_error (fst (handle_message m now ok s)) \<noteq> None \<and>
         snd (handle_message m now ok s) = s"
  using assms
  by (auto simp: handle_message_def lit_def get_board_item_def error_response_def)

theorem handle_message_paste_out_of_range_witness:
  "msg_action (paste_request 5) = Some (lit ''paste'') \<and> msg_index (paste_request 5) = Some 5 \<and>
   5 \<ge> int (length (board two_state)) \<and>
   handle_message (paste_request 5) 1 True two_state =
     (\<lparr>resp_success = False, resp_items = None, resp_content = None,
       resp_error = Some (lit ''Invalid index or item not found'')\<rparr>, two_state)"
proof -
  have h: "msg_action (paste_request 5) = Some (lit ''paste'')"
          "msg_index (paste_request 5) = Some 5"
          "(5::int) < 0 \<or> 5 \<ge> int (length (board two_state))"
    by (simp_all add: paste_request_def two_state_def)
  have len: "5 \<ge> int (length (board two_state))"
    by (simp add: two_state_def)
  from handle_message_paste_out_of_range [OF h, of 1 True] h len
  show ?thesis by (simp add: error_response_def)
qed

text \<open>
  C10. For a request with action \<open>"paste"\<close> and an index in range, \<open>get_board_item\<close>
  finds the entry. When that entry is the empty string, the truth test on it fails and
  the answer is the same error as for an index out of range, with \<open>success\<close> false; when
  it is not empty, the answer carries it as \<open>content\<close>. The state is unchanged. The
  empty string gets onto the board through \<open>copy_to_board("")\<close>.
\<close>

theorem handle_message_paste_empty_entry:
  assumes "msg_action m = Some (lit ''paste'')" and "msg_index m = Some i"
    and "0 \<le> i" and "i < int (length (board s))"
  shows "get_board_item i s = Some (board s ! nat i) \<and>
         (board s ! nat i = [] \<longrightarrow>
            handle_message m now ok s =
              (error_response (lit ''Invalid index or item not found''), s) \<and>
            \<not> resp_success (fst (handle_message m now ok s))) \<and>
         (board s ! nat i \<noteq> [] \<longrightarrow>
            handle_message m now ok s =
              ((success_response True)\<lparr>resp_content := Some (board s ! nat i)\<rparr>, s))"
  using assms
  by (auto simp: handle_message_def lit_def get_board_item_def error_response_def)

theorem handle_message_paste_empty_entry_witness:
  "board empty_entry_state = [[], lit ''c'', lit ''b''] \<and>
   msg_action (paste_request 0) = Some (lit ''paste'') \<and> msg_index (paste_request 0) = Some 0 \<and>
   (0::int) \<le> 0 \<and> 0 < int (length (board empty_entry_state)) \<and>
   get_board_item 0 empty_entry_state = Some [] \<and>
   handle_message (paste_request 0) 2 True empty_entry_state =
     (\<lparr>resp_success = False, resp_items = None, resp_content = None,
       resp_error = Some (lit ''Invalid index or item not found'')\<rparr>, empty_entry_state) \<and>
   handle_message (paste_request 1) 2 True empty_entry_state =
     (\<lparr>resp_success = True, resp_items = None, resp_content = Some (lit ''c''),
       resp_error = None\<rparr>, empty_entry_state)"
proof -
  have b: "board empty_entry_state = [[], lit ''c'', lit ''b'']"
    by (simp add: empty_entry_state_def board_defs)
  have h0: "msg_action (paste_request 0) = Some (lit ''paste'')"
           "msg_index (paste_request 0) = Some 0" "(0::int) \<le> 0"
           "0 < int (length (board empty_entry_state))"
    by (simp_all add: paste_request_def b)
  have h1: "msg_action (paste_request 1) = Some (lit ''paste'')"
           "msg_index (paste_request 1) = Some 1" "(0::int) \<le> 1"
           "1 < int (length (board empty_entry_state))"
    by (simp_all add: paste_request_def b)
  from handle_message_paste_empty_entry [OF h0, of 2 True]
       handle_message_paste_empty_entry [OF h1, of 2 True] h0 b
  show ?thesis by (simp add: error_response_def success_response_def lit_def)
qed

end
